theory Spec2Isabelle
  imports Main "HOL-Library.Sublist" "HOL-Library.Multiset" "HOL-Library.AList"
begin

section \<open>Python values used by the release log generator\<close>

text \<open>
  A Python \<open>str\<close> is modelled as a \<^typ>\<open>string\<close>, a list of characters whose codes are the
  code points 0..255. An exception is its class name together with \<open>str(e)\<close>; a function
  that may raise returns \<open>exn + 'a\<close>, with \<open>Inl\<close> for the raise. A \<open>dict\<close> with string
  keys is an association list in insertion order, looked up with \<^const>\<open>map_of\<close>.
\<close>

datatype exn = Exn (exn_class: string) (exn_str: string)

type_synonym 'v dict = "(string \<times> 'v) list"

definition dict_get :: "'v dict \<Rightarrow> string \<Rightarrow> 'v \<Rightarrow> 'v" where
  \<comment> \<open>\<open>d.get(key, default)\<close>\<close>
  "dict_get d key dflt = (case map_of d key of None \<Rightarrow> dflt | Some v \<Rightarrow> v)"

definition getitem :: "'v dict \<Rightarrow> string \<Rightarrow> exn + 'v" where
  \<comment> \<open>\<open>d[key]\<close>, which raises KeyError on a missing key\<close>
  "getitem d key =
     (case map_of d key of
        None \<Rightarrow> Inl (Exn ''KeyError'' ([CHR 0x27] @ key @ [CHR 0x27]))
      | Some v \<Rightarrow> Inr v)"

definition list_append :: "'a list dict \<Rightarrow> string \<Rightarrow> 'a \<Rightarrow> exn + 'a list dict" where
  \<comment> \<open>\<open>d[key].append(v)\<close>: the list stored under \<open>key\<close> grows in place\<close>
  "list_append d key v =
     (case getitem d key of
        Inl e \<Rightarrow> Inl e
      | Inr xs \<Rightarrow> Inr (AList.update key (xs @ [v]) d))"

definition startswith :: "string \<Rightarrow> string \<Rightarrow> bool" where
  "startswith s p = prefix p s"

definition endswith :: "string \<Rightarrow> string \<Rightarrow> bool" where
  "endswith s p = suffix p s"

definition py_in :: "string \<Rightarrow> string \<Rightarrow> bool" where
  \<comment> \<open>\<open>sub in s\<close> on strings: \<open>sub\<close> occurs in \<open>s\<close> as a contiguous block\<close>
  "py_in sub s = sublist sub s"

definition rstrip :: "string \<Rightarrow> char \<Rightarrow> string" where
  \<comment> \<open>\<open>s.rstrip(c)\<close> for a one-character argument\<close>
  "rstrip s c = rev (dropWhile (\<lambda>x. x = c) (rev s))"

function replace :: "string \<Rightarrow> string \<Rightarrow> string \<Rightarrow> string" where
  "replace [] old new = (if old = [] then new else [])"
| "replace (c # cs) old new =
     (if old = [] then new @ c # replace cs old new
      else if prefix old (c # cs) then new @ replace (drop (length old) (c # cs)) old new
      else c # replace cs old new)"
  by pat_completeness auto
termination
  by (relation "measure (\<lambda>(s, old, new). length s)") auto

fun split :: "string \<Rightarrow> char \<Rightarrow> string list" where
  \<comment> \<open>\<open>s.split(sep)\<close> for a one-character separator\<close>
  "split [] sep = [[]]"
| "split (c # cs) sep =
     (if c = sep then [] # split cs sep
      else (case split cs sep of [] \<Rightarrow> [[c]] | w # ws \<Rightarrow> (c # w) # ws))"

definition lower_char :: "char \<Rightarrow> char" where
  \<comment> \<open>\<open>str.lower\<close> on one code point below 256: A-Z and the Latin-1 capitals\<close>
  "lower_char c =
     (let n = (of_char c :: nat) in
      if (65 \<le> n \<and> n \<le> 90) \<or> (192 \<le> n \<and> n \<le> 222 \<and> n \<noteq> 215)
      then char_of (n + 32) else c)"

definition lower :: "string \<Rightarrow> string" where
  "lower s = map lower_char s"

definition slice_to :: "string \<Rightarrow> int \<Rightarrow> string" where
  \<comment> \<open>\<open>s[:n]\<close>: a negative \<open>n\<close> counts from the end\<close>
  "slice_to s n = (if 0 \<le> n then take (nat n) s else take (nat (int (length s) + n)) s)"

fun str_nat :: "nat \<Rightarrow> string" where
  "str_nat n = (if n < 10 then [''0123456789'' ! n]
                else str_nat (n div 10) @ [''0123456789'' ! (n mod 10)])"

definition str_int :: "int \<Rightarrow> string" where
  "str_int i = (if i < 0 then CHR ''-'' # str_nat (nat (- i)) else str_nat (nat i))"

section \<open>utils.py: GitHubUtils\<close>

definition parse_repository_url :: "string \<Rightarrow> exn + (string \<times> string)" where
  "parse_repository_url repo_input0 =
     (let stripped = rstrip repo_input0 CHR ''/'';
          repo_input =
            (if startswith stripped ''https://github.com/''
             then replace stripped ''https://github.com/'' ''''
             else if startswith stripped ''git@github.com:''
             then replace (replace stripped ''git@github.com:'' '''') ''.git'' ''''
             else stripped)
      in if py_in ''/'' repo_input
         then (case split repo_input CHR ''/'' of
                 a # b # _ \<Rightarrow> Inr (a, b)
               | _ \<Rightarrow> Inl (Exn ''ValueError'' (''Invalid repository format: '' @ repo_input)))
         else Inl (Exn ''ValueError'' (''Invalid repository format: '' @ repo_input)))"

definition validate_commit_sha :: "string \<Rightarrow> bool" where
  "validate_commit_sha sha =
     (if sha = [] then False
      else if length sha < 4 \<or> length sha > 40 then False
      else list_all (\<lambda>c. c \<in> set ''0123456789abcdefABCDEF'') sha)"

definition shorten_sha :: "string \<Rightarrow> int \<Rightarrow> string" where
  "shorten_sha sha length' = (if int (length sha) > length' then slice_to sha length' else sha)"

section \<open>utils.py: ReleaseLogUtils\<close>

definition categorize_change :: "string list dict \<Rightarrow> string dict \<Rightarrow> exn + string list dict" where
  \<comment> \<open>the body of the loop of \<open>categorize_file_changes\<close>\<close>
  "categorize_change categories change =
     (let file_path = dict_get change ''file_path'' '''' in
      if list_ex (\<lambda>pattern. py_in pattern file_path)
           [''/test/'', ''_test.'', ''.test.'', ''/tests/'', ''spec.''] \<or>
         startswith file_path ''test/'' \<or> startswith file_path ''tests/'' \<or>
         py_in ''/test/'' file_path \<or> py_in ''/tests/'' file_path
      then list_append categories ''tests'' file_path
      else if list_ex (\<lambda>ext. endswith file_path ext) [''.md'', ''.txt'', ''.rst'', ''.adoc'']
      then list_append categories ''documentation'' file_path
      else if list_ex (\<lambda>pattern. py_in pattern file_path)
           [''package.json'', ''requirements.txt'', ''Gemfile'', ''pom.xml'', ''build.gradle'']
      then list_append categories ''dependencies'' file_path
      else if list_ex (\<lambda>ext. endswith file_path ext)
           [''.json'', ''.yaml'', ''.yml'', ''.toml'', ''.ini'', ''.env'']
      then list_append categories ''config'' file_path
      else if list_ex (\<lambda>ext. endswith file_path ext)
           [''.py'', ''.js'', ''.ts'', ''.java'', ''.cpp'', ''.c'', ''.go'', ''.rb'', ''.php'',
            ''.rs'', ''.swift'']
      then list_append categories ''source_code'' file_path
      else list_append categories ''other'' file_path)"

fun categorize_loop :: "string dict list \<Rightarrow> string list dict \<Rightarrow> exn + string list dict" where
  "categorize_loop [] categories = Inr categories"
| "categorize_loop (change # rest) categories =
     (case categorize_change categories change of
        Inl e \<Rightarrow> Inl e
      | Inr categories' \<Rightarrow> categorize_loop rest categories')"

definition categorize_file_changes :: "string dict list \<Rightarrow> exn + string list dict" where
  "categorize_file_changes file_changes =
     categorize_loop file_changes
       [(''source_code'', []), (''tests'', []), (''documentation'', []), (''config'', []),
        (''dependencies'', []), (''other'', [])]"

definition breaking_keywords :: "string list" where
  "breaking_keywords = [''BREAKING'', ''breaking change'', ''breaking:'', ''major:'']"

definition feature_keywords :: "string list" where
  "feature_keywords = [''feat:'', ''feature:'', ''add:'', ''new:'']"

fun scan_commits :: "string dict list \<Rightarrow> bool \<times> bool \<Rightarrow> bool \<times> bool" where
  \<comment> \<open>the loop over \<open>commits_info\<close>; the state is \<open>(has_breaking, has_features)\<close>\<close>
  "scan_commits [] (has_breaking, has_features) = (has_breaking, has_features)"
| "scan_commits (commit # rest) (has_breaking, has_features) =
     (let message = lower (dict_get commit ''message'' '''') in
      if list_ex (\<lambda>keyword. py_in (lower keyword) message) breaking_keywords
      then scan_commits rest (True, has_features)
      else if list_ex (\<lambda>keyword. py_in (lower keyword) message) feature_keywords
      then scan_commits rest (has_breaking, True)
      else scan_commits rest (has_breaking, has_features))"

definition generate_version_suggestion :: "string dict list \<Rightarrow> string dict list \<Rightarrow> exn + string" where
  "generate_version_suggestion file_changes commits_info =
     (case scan_commits commits_info (False, False) of
        (has_breaking, has_features) \<Rightarrow>
     (case categorize_file_changes file_changes of
        Inl e \<Rightarrow> Inl e
      | Inr categories \<Rightarrow>
     (case getitem categories ''source_code'' of
        Inl e \<Rightarrow> Inl e
      | Inr source_code \<Rightarrow>
          (let has_code_changes = (length source_code > 0) in
           if has_breaking then Inr ''major''
           else if has_features \<or> has_code_changes then Inr ''minor''
           else Inr ''patch''))))"

section \<open>config.py: the request and result models\<close>

record GitHubRequest =
  repository :: string
  from_commit :: string
  to_commit :: string
  recipient_email :: string

record CommitDiff =
  file_path :: string
  additions :: int
  deletions :: int
  changes :: string
  status :: string

record AnalysisResult =
  repository :: string
  from_commit :: string
  to_commit :: string
  total_files_changed :: int
  total_additions :: int
  total_deletions :: int
  file_changes :: "CommitDiff list"
  summary :: string

section \<open>mcp_server.py: GitHubMCPServer\<close>

text \<open>
  The hosting API is outside the repository. Its objects are records of the attributes the
  code reads, and its two calls are functions of an explicit state of the outside world
  \<open>'w\<close>, since \<open>repo.compare\<close> is called twice in one analysis and need not answer the same.
\<close>

record api_file =
  filename :: string
  file_additions :: int
  file_deletions :: int
  patch :: "string option"
  file_status :: string

record api_commit =
  commit_sha :: string
  commit_message :: string
  author_name :: string
  author_date_isoformat :: string
  html_url :: string

record comparison =
  files :: "api_file list"
  commits :: "api_commit list"

record ('r, 'w) github =
  get_repo :: "string \<Rightarrow> 'w \<Rightarrow> (exn + 'r) \<times> 'w"
  compare :: "'r \<Rightarrow> string \<Rightarrow> string \<Rightarrow> 'w \<Rightarrow> (exn + comparison) \<times> 'w"

definition parse_repository :: "string \<Rightarrow> exn + string" where
  "parse_repository repo =
     (if startswith repo ''https://github.com/''
      then Inr (rstrip (replace repo ''https://github.com/'' []) CHR ''/'')
      else if py_in ''/'' repo then Inr repo
      else Inl (Exn ''ValueError''
             (''Invalid repository format. Use '' @ [CHR 0x27] @ ''owner/repo'' @ [CHR 0x27] @
              '' or full GitHub URL'')))"

definition get_repository :: "('r, 'w) github \<Rightarrow> string \<Rightarrow> 'w \<Rightarrow> (exn + 'r) \<times> 'w" where
  "get_repository gh repo_name w = get_repo gh repo_name w"

definition get_commit_diff ::
  "('r, 'w) github \<Rightarrow> 'r \<Rightarrow> string \<Rightarrow> string \<Rightarrow> 'w \<Rightarrow> (exn + CommitDiff list) \<times> 'w" where
  "get_commit_diff gh repo from_c to_c w =
     (case compare gh repo from_c to_c w of
        (Inl e, w') \<Rightarrow> (Inl e, w')
      | (Inr cmp, w') \<Rightarrow>
          (Inr (map (\<lambda>file. \<lparr>file_path = filename file,
                               additions = file_additions file,
                               deletions = file_deletions file,
                               changes = (case patch file of None \<Rightarrow> [] | Some p \<Rightarrow> p),
                               status = file_status file\<rparr>) (files cmp)), w'))"

definition get_commits_info ::
  "('r, 'w) github \<Rightarrow> 'r \<Rightarrow> string \<Rightarrow> string \<Rightarrow> 'w \<Rightarrow> (exn + string dict list) \<times> 'w" where
  "get_commits_info gh repo from_c to_c w =
     (case compare gh repo from_c to_c w of
        (Inl e, w') \<Rightarrow> (Inl e, w')
      | (Inr cmp, w') \<Rightarrow>
          (Inr (map (\<lambda>commit. [(''sha'', commit_sha commit),
                                 (''message'', commit_message commit),
                                 (''author'', author_name commit),
                                 (''date'', author_date_isoformat commit),
                                 (''url'', html_url commit)]) (commits cmp)), w'))"

definition analyze_repository_changes ::
  "('r, 'w) github \<Rightarrow> string \<Rightarrow> string \<Rightarrow> string \<Rightarrow> 'w \<Rightarrow> (exn + AnalysisResult) \<times> 'w" where
  "analyze_repository_changes gh repo from_c to_c w0 =
     (case parse_repository repo of
        Inl e \<Rightarrow> (Inl e, w0)
      | Inr repo_name \<Rightarrow>
     (case get_repository gh repo_name w0 of
        (Inl e, w1) \<Rightarrow> (Inl e, w1)
      | (Inr repo_obj, w1) \<Rightarrow>
     (case get_commit_diff gh repo_obj from_c to_c w1 of
        (Inl e, w2) \<Rightarrow> (Inl e, w2)
      | (Inr fcs, w2) \<Rightarrow>
     (case get_commits_info gh repo_obj from_c to_c w2 of
        (Inl e, w3) \<Rightarrow> (Inl e, w3)
      | (Inr commits_info, w3) \<Rightarrow>
          (let total_files = int (length fcs);
               total_add = sum_list (map additions fcs);
               total_del = sum_list (map deletions fcs);
               text =
                 ''Analysis of '' @ repo_name @ '' from '' @ slice_to from_c 8 @ '' to '' @
                   slice_to to_c 8 @ '':'' @ [CHR 0x0A] @
                 ''- '' @ str_int total_files @ '' files changed'' @ [CHR 0x0A] @
                 ''- '' @ str_int total_add @ '' additions, '' @ str_int total_del @
                   '' deletions'' @ [CHR 0x0A] @
                 ''- '' @ str_int (int (length commits_info)) @ '' commits analyzed''
           in (Inr \<lparr>AnalysisResult.repository = repo_name,
                     from_commit = from_c,
                     to_commit = to_c,
                     total_files_changed = total_files,
                     total_additions = total_add,
                     total_deletions = total_del,
                     file_changes = fcs,
                     summary = text\<rparr>, w3))))))"

section \<open>agents.py: GitHubAnalyzerTool\<close>

text \<open>
  The tool through which the analysis agent reaches \<open>analyze_repository_changes\<close>. It
  catches every exception of the analysis and returns its text instead.
\<close>

definition GitHubAnalyzerTool_run ::
  "('r, 'w) github \<Rightarrow> (AnalysisResult \<Rightarrow> exn + string) \<Rightarrow>
   string \<Rightarrow> string \<Rightarrow> string \<Rightarrow> 'w \<Rightarrow> (exn + string) \<times> 'w" where
  \<comment> \<open>\<open>GitHubAnalyzerTool._run\<close>; \<open>dumps\<close> stands for \<open>json.dumps(result.dict(), indent=2)\<close>\<close>
  "GitHubAnalyzerTool_run gh dumps repo from_c to_c w =
     (case analyze_repository_changes gh repo from_c to_c w of
        (Inl e, w') \<Rightarrow> (Inr (''Error analyzing repository: '' @ exn_str e), w')
      | (Inr result, w') \<Rightarrow>
          (case dumps result of
             Inl e \<Rightarrow> (Inr (''Error analyzing repository: '' @ exn_str e), w')
           | Inr dumped \<Rightarrow> (Inr dumped, w')))"

section \<open>crew.py: GitHubReleaseLogCrew\<close>

text \<open>
  The agent framework is outside the repository: its task constructors, the assignment of a
  task's context and the sequential run of the crew are parameters, each of which may raise.
  \<open>kickoff\<close> stands for building the \<open>Crew\<close>, running it and taking \<open>str(result)\<close>.
\<close>

definition EmailSenderTool_run ::
  "(string \<Rightarrow> string \<Rightarrow> string \<Rightarrow> string \<Rightarrow> exn + bool) \<Rightarrow>
   string \<Rightarrow> string \<Rightarrow> string \<Rightarrow> string \<Rightarrow> exn + string" where
  \<comment> \<open>\<open>EmailSenderTool._run\<close>; \<open>email_service.send_email\<close> is a parameter\<close>
  "EmailSenderTool_run send_email recipient subject release_log repo =
     (case send_email recipient subject release_log repo of
        Inr success \<Rightarrow>
          (if success
           then Inr (''Email successfully sent to '' @ recipient @ '' with subject: '' @ subject)
           else Inr (''Failed to send email to '' @ recipient))
      | Inl e \<Rightarrow> Inr (''Error sending email: '' @ exn_str e))"

record 'a GitHubReleaseLogCrew =
  github_analyzer_agent :: 'a
  code_analysis_agent :: 'a
  release_log_generator_agent :: 'a
  email_sender_agent :: 'a

record ('a, 't) crewai =
  create_github_analysis_task :: "'a \<Rightarrow> string \<Rightarrow> string \<Rightarrow> string \<Rightarrow> exn + 't"
  create_code_analysis_task :: "'a \<Rightarrow> string \<Rightarrow> exn + 't"
  create_release_log_task :: "'a \<Rightarrow> string \<Rightarrow> string \<Rightarrow> exn + 't"
  create_email_sending_task :: "'a \<Rightarrow> string \<Rightarrow> string \<Rightarrow> string \<Rightarrow> exn + 't"
  set_context :: "'t \<Rightarrow> 't list \<Rightarrow> 't"
  kickoff :: "'a list \<Rightarrow> 't list \<Rightarrow> exn + string"

definition process_request_try ::
  "('a, 't) crewai \<Rightarrow> 'a GitHubReleaseLogCrew \<Rightarrow> GitHubRequest \<Rightarrow> exn + string" where
  \<comment> \<open>the body of the \<open>try\<close> of \<open>process_request\<close>, up to \<open>str(result)\<close>\<close>
  "process_request_try fw self request =
     (case create_github_analysis_task fw (github_analyzer_agent self)
             (GitHubRequest.repository request) (GitHubRequest.from_commit request)
             (GitHubRequest.to_commit request) of
        Inl e \<Rightarrow> Inl e
      | Inr github_task \<Rightarrow>
     (case create_code_analysis_task fw (code_analysis_agent self)
             ''{{github_analysis_result}}'' of
        Inl e \<Rightarrow> Inl e
      | Inr t2 \<Rightarrow>
     (let code_analysis_task = set_context fw t2 [github_task] in
      case create_release_log_task fw (release_log_generator_agent self)
             ''{{code_analysis_result}}'' (GitHubRequest.repository request) of
        Inl e \<Rightarrow> Inl e
      | Inr t3 \<Rightarrow>
     (let release_log_task = set_context fw t3 [code_analysis_task] in
      case create_email_sending_task fw (email_sender_agent self) ''{{release_log}}''
             (recipient_email request) (GitHubRequest.repository request) of
        Inl e \<Rightarrow> Inl e
      | Inr t4 \<Rightarrow>
     (let email_task = set_context fw t4 [release_log_task] in
      kickoff fw
        [github_analyzer_agent self, code_analysis_agent self,
         release_log_generator_agent self, email_sender_agent self]
        [github_task, code_analysis_task, release_log_task, email_task])))))"

definition process_request ::
  "('a, 't) crewai \<Rightarrow> 'a GitHubReleaseLogCrew \<Rightarrow> GitHubRequest \<Rightarrow> string dict" where
  "process_request fw self request =
     (case process_request_try fw self request of
        Inr result \<Rightarrow>
          [(''status'', ''success''),
           (''message'', ''Release log generated and email sent successfully''),
           (''repository'', GitHubRequest.repository request),
           (''from_commit'', GitHubRequest.from_commit request),
           (''to_commit'', GitHubRequest.to_commit request),
           (''recipient_email'', recipient_email request),
           (''result'', result)]
      | Inl e \<Rightarrow>
          [(''status'', ''error''),
           (''message'', ''Error processing request: '' @ exn_str e),
           (''repository'', GitHubRequest.repository request),
           (''from_commit'', GitHubRequest.from_commit request),
           (''to_commit'', GitHubRequest.to_commit request),
           (''recipient_email'', recipient_email request)])"

section \<open>Notions used to state the properties\<close>

text \<open>
  The file changes and commits handed to \<open>ReleaseLogUtils\<close> are dictionaries whose values
  under \<open>file_path\<close> and \<open>message\<close> are strings, as the record types \<open>CommitDiff\<close> and the
  commit dictionaries of \<open>get_commits_info\<close> have them; a missing key is covered by the
  default of \<open>get\<close>.
\<close>

definition hex_digit :: "char \<Rightarrow> bool" where
  \<comment> \<open>a hexadecimal digit: 0-9, a-f or A-F, by character code\<close>
  "hex_digit c =
     (let n = (of_char c :: nat) in
      (48 \<le> n \<and> n \<le> 57) \<or> (97 \<le> n \<and> n \<le> 102) \<or> (65 \<le> n \<and> n \<le> 70))"

definition path_of :: "string dict \<Rightarrow> string" where
  \<comment> \<open>the path that \<open>categorize_file_changes\<close> reads from a file change\<close>
  "path_of change = dict_get change ''file_path'' []"

definition is_tests :: "string \<Rightarrow> bool" where
  \<comment> \<open>the first condition of the chain, without its repeated tests\<close>
  "is_tests p = (list_ex (\<lambda>m. py_in m p) [''/test/'', ''/tests/'', ''_test.'', ''.test.'', ''spec.'']
     \<or> startswith p ''test/'' \<or> startswith p ''tests/'')"

definition is_documentation :: "string \<Rightarrow> bool" where
  \<comment> \<open>the second condition of the chain\<close>
  "is_documentation p = list_ex (endswith p) [''.md'', ''.txt'', ''.rst'', ''.adoc'']"

definition manifests :: "string list" where
  \<comment> \<open>the dependency manifests named in the third condition\<close>
  "manifests = [''package.json'', ''requirements.txt'', ''Gemfile'', ''pom.xml'', ''build.gradle'']"

definition names_manifest :: "string \<Rightarrow> bool" where
  \<comment> \<open>the third condition of the chain: a manifest name occurs in the path\<close>
  "names_manifest p = list_ex (\<lambda>m. py_in m p) manifests"

definition is_config :: "string \<Rightarrow> bool" where
  \<comment> \<open>the fourth condition of the chain\<close>
  "is_config p = list_ex (endswith p) [''.json'', ''.yaml'', ''.yml'', ''.toml'', ''.ini'', ''.env'']"

definition is_source_code :: "string \<Rightarrow> bool" where
  \<comment> \<open>the fifth condition of the chain\<close>
  "is_source_code p = list_ex (endswith p)
     [''.py'', ''.js'', ''.ts'', ''.java'', ''.cpp'', ''.c'', ''.go'', ''.rb'', ''.php'', ''.rs'', ''.swift'']"

definition category_of :: "string \<Rightarrow> string" where
  \<comment> \<open>the key of the bucket that the chain of conditions selects for a path\<close>
  "category_of p =
     (if is_tests p then ''tests''
      else if is_documentation p then ''documentation''
      else if names_manifest p then ''dependencies''
      else if is_config p then ''config''
      else if is_source_code p then ''source_code''
      else ''other'')"

definition bucket :: "string \<Rightarrow> string dict list \<Rightarrow> string list" where
  \<comment> \<open>the input paths of one category, in input order\<close>
  "bucket k fcs = filter (\<lambda>p. category_of p = k) (map path_of fcs)"

definition category_names :: "string list" where
  "category_names = [''source_code'', ''tests'', ''documentation'', ''config'', ''dependencies'', ''other'']"

definition category_paths :: "string dict list \<Rightarrow> string \<Rightarrow> string list" where
  \<comment> \<open>what \<open>categorize_file_changes\<close> returns under one key\<close>
  "category_paths fcs k =
     (case categorize_file_changes fcs of Inl e \<Rightarrow> [] | Inr cats \<Rightarrow> dict_get cats k [])"

definition buckets6 :: "string list \<Rightarrow> string list \<Rightarrow> string list \<Rightarrow> string list \<Rightarrow> string list \<Rightarrow> string list \<Rightarrow> string list dict" where
  \<comment> \<open>the dictionary of the loop, with its six lists named\<close>
  "buckets6 a b c d e f = [(''source_code'', a), (''tests'', b), (''documentation'', c), (''config'', d),
        (''dependencies'', e), (''other'', f)]"

fun ci_prefix :: "string \<Rightarrow> string \<Rightarrow> bool" where
  \<comment> \<open>the first string starts the second, letters compared without regard to case\<close>
  "ci_prefix [] s = True"
| "ci_prefix (a # as) [] = False"
| "ci_prefix (a # as) (b # bs) = (lower_char a = lower_char b \<and> ci_prefix as bs)"

fun contains_ci :: "string \<Rightarrow> string \<Rightarrow> bool" where
  \<comment> \<open>the marker occurs in the message, without regard to case\<close>
  "contains_ci marker [] = (marker = [])"
| "contains_ci marker (c # cs) = (ci_prefix marker (c # cs) \<or> contains_ci marker cs)"

definition breaking_markers :: "string list" where
  "breaking_markers = [''breaking'', ''breaking change'', ''breaking:'', ''major:'']"

definition feature_markers :: "string list" where
  "feature_markers = [''feat:'', ''feature:'', ''add:'', ''new:'']"

definition has_marker :: "string list \<Rightarrow> string dict \<Rightarrow> bool" where
  \<comment> \<open>the message of the commit contains one of the markers\<close>
  "has_marker markers commit = list_ex (\<lambda>m. contains_ci m (dict_get commit ''message'' [])) markers"

definition basename :: "string \<Rightarrow> string" where
  \<comment> \<open>the file name of a path: what follows its last \<open>/\<close>\<close>
  "basename p = rev (takeWhile (\<lambda>c. c \<noteq> CHR ''/'') (rev p))"

text \<open>
  The outcome of a run as the specification has it: a tagged union of success and failure,
  each with the repository, the two revisions and the address of the request, and the
  payload or the error message. \<open>outcome_of\<close> reads it from the dictionary that
  \<open>process_request\<close> returns.
\<close>

datatype PipelineOutcome =
    Success string string string string string
  | Failure string string string string string

definition outcome_of :: "string dict \<Rightarrow> PipelineOutcome option" where
  "outcome_of d =
     (case (map_of d ''status'', map_of d ''repository'', map_of d ''from_commit'',
            map_of d ''to_commit'', map_of d ''recipient_email'') of
        (Some st, Some r, Some f, Some t, Some n) \<Rightarrow>
          (if st = ''success'' then map_option (Success r f t n) (map_of d ''result'')
           else if st = ''error'' then map_option (Failure r f t n) (map_of d ''message'')
           else None)
      | _ \<Rightarrow> None)"

definition request_failure :: "GitHubRequest \<Rightarrow> exn \<Rightarrow> PipelineOutcome" where
  \<comment> \<open>the failure of a request whose run raised \<open>e\<close>\<close>
  "request_failure request e =
     Failure (GitHubRequest.repository request) (GitHubRequest.from_commit request)
       (GitHubRequest.to_commit request) (recipient_email request)
       (''Error processing request: '' @ exn_str e)"

text \<open>
  The five steps of the run that can raise to \<open>process_request\<close>: the four task
  constructors with the arguments they are called with, and the run of the crew on the
  tasks that were built, each later task with the one before it as context.
\<close>

definition github_stage ::
  "('a, 't) crewai \<Rightarrow> 'a GitHubReleaseLogCrew \<Rightarrow> GitHubRequest \<Rightarrow> exn + 't" where
  "github_stage fw self request =
     create_github_analysis_task fw (github_analyzer_agent self)
       (GitHubRequest.repository request) (GitHubRequest.from_commit request)
       (GitHubRequest.to_commit request)"

definition code_stage :: "('a, 't) crewai \<Rightarrow> 'a GitHubReleaseLogCrew \<Rightarrow> exn + 't" where
  "code_stage fw self =
     create_code_analysis_task fw (code_analysis_agent self) ''{{github_analysis_result}}''"

definition log_stage ::
  "('a, 't) crewai \<Rightarrow> 'a GitHubReleaseLogCrew \<Rightarrow> GitHubRequest \<Rightarrow> exn + 't" where
  "log_stage fw self request =
     create_release_log_task fw (release_log_generator_agent self) ''{{code_analysis_result}}''
       (GitHubRequest.repository request)"

definition email_stage ::
  "('a, 't) crewai \<Rightarrow> 'a GitHubReleaseLogCrew \<Rightarrow> GitHubRequest \<Rightarrow> exn + 't" where
  "email_stage fw self request =
     create_email_sending_task fw (email_sender_agent self) ''{{release_log}}''
       (recipient_email request) (GitHubRequest.repository request)"

definition crew_stage ::
  "('a, 't) crewai \<Rightarrow> 'a GitHubReleaseLogCrew \<Rightarrow> 't \<Rightarrow> 't \<Rightarrow> 't \<Rightarrow> 't \<Rightarrow> exn + string" where
  "crew_stage fw self t1 t2 t3 t4 =
     kickoff fw
       [github_analyzer_agent self, code_analysis_agent self,
        release_log_generator_agent self, email_sender_agent self]
       [t1,
        set_context fw t2 [t1],
        set_context fw t3 [set_context fw t2 [t1]],
        set_context fw t4 [set_context fw t3 [set_context fw t2 [t1]]]]"

text \<open>
  Concrete collaborators for the worked examples: a hosting API that answers the
  comparison of the end-to-end scenario, an agent framework whose step \<open>k\<close> raises, an
  email service that refuses every message, and a framework whose run reports what the
  email tool returned.
\<close>

definition demo_github :: "(unit, unit) github" where
  "demo_github =
     \<lparr>get_repo = (\<lambda>name w. (Inr (), w)),
      compare = (\<lambda>repo from_c to_c w.
        (Inr \<lparr>files =
                 [\<lparr>filename = ''src/a.py'', file_additions = 10, file_deletions = 2,
                    patch = None, file_status = ''modified''\<rparr>,
                  \<lparr>filename = ''README.md'', file_additions = 3, file_deletions = 0,
                    patch = Some ''+hello'', file_status = ''modified''\<rparr>],
               commits =
                 [\<lparr>commit_sha = ''abc123'', commit_message = ''feat: add widget'',
                    author_name = ''octo'', author_date_isoformat = ''2024-01-01T00:00:00'',
                    html_url = ''https://github.com/octo/demo/commit/abc123''\<rparr>]\<rparr>, w))\<rparr>"

definition demo_analysis :: AnalysisResult where
  "demo_analysis =
     \<lparr>AnalysisResult.repository = ''octo/demo'',
      from_commit = ''v1.0.0'',
      to_commit = ''v1.1.0'',
      total_files_changed = 2,
      total_additions = 13,
      total_deletions = 2,
      file_changes =
        [\<lparr>file_path = ''src/a.py'', additions = 10, deletions = 2, changes = [],
           status = ''modified''\<rparr>,
         \<lparr>file_path = ''README.md'', additions = 3, deletions = 0, changes = ''+hello'',
           status = ''modified''\<rparr>],
      summary = ''Analysis of octo/demo from v1.0.0 to v1.1.0:'' @ [CHR 0x0A] @
        ''- 2 files changed'' @ [CHR 0x0A] @
        ''- 13 additions, 2 deletions'' @ [CHR 0x0A] @
        ''- 1 commits analyzed''\<rparr>"

definition demo_crew :: "unit GitHubReleaseLogCrew" where
  "demo_crew = \<lparr>github_analyzer_agent = (), code_analysis_agent = (),
     release_log_generator_agent = (), email_sender_agent = ()\<rparr>"

definition demo_request :: GitHubRequest where
  "demo_request = \<lparr>GitHubRequest.repository = ''octo/demo'', from_commit = ''v1.0.0'',
     to_commit = ''v1.1.0'', recipient_email = ''dev@example.com''\<rparr>"

definition failing_at :: "nat \<Rightarrow> (unit, string) crewai" where
  "failing_at k =
     \<lparr>create_github_analysis_task = (\<lambda>agent repo from_c to_c.
        if k = 1 then Inl (Exn ''ValueError'' ''bad repository'') else Inr ''github''),
      create_code_analysis_task = (\<lambda>agent described.
        if k = 2 then Inl (Exn ''TypeError'' ''bad analysis task'') else Inr ''code''),
      create_release_log_task = (\<lambda>agent described repo.
        if k = 3 then Inl (Exn ''TypeError'' ''bad log task'') else Inr ''log''),
      create_email_sending_task = (\<lambda>agent described email repo.
        if k = 4 then Inl (Exn ''TypeError'' ''bad email task'') else Inr ''email''),
      set_context = (\<lambda>task ctx. task @ ''<'' @ concat ctx),
      kickoff = (\<lambda>agents tasks.
        if k = 5 then Inl (Exn ''RuntimeError'' ''boom'') else Inr (concat tasks))\<rparr>"

definition refusing_send :: "string \<Rightarrow> string \<Rightarrow> string \<Rightarrow> string \<Rightarrow> exn + bool" where
  "refusing_send recipient subject release_log repo =
     Inl (Exn ''ConnectionRefusedError'' ''connection refused'')"

definition reporting_crewai :: "(unit, string) crewai" where
  "reporting_crewai =
     \<lparr>create_github_analysis_task = (\<lambda>agent repo from_c to_c. Inr ''github''),
      create_code_analysis_task = (\<lambda>agent described. Inr ''code''),
      create_release_log_task = (\<lambda>agent described repo. Inr ''log''),
      create_email_sending_task = (\<lambda>agent described email repo. Inr ''email''),
      set_context = (\<lambda>task ctx. task),
      kickoff = (\<lambda>agents tasks.
        EmailSenderTool_run refusing_send ''dev@example.com'' ''Release log'' ''notes''
          ''octo/demo'')\<rparr>"

section \<open>Commit identifiers\<close>

lemma hex_digit_iff: "c \<in> set ''0123456789abcdefABCDEF'' \<longleftrightarrow> hex_digit c"
  by (cases c) (simp add: hex_digit_def)

lemma all_hex_digit:
  "list_all (\<lambda>c. c \<in> set ''0123456789abcdefABCDEF'') sha = list_all hex_digit sha"
  by (simp only: hex_digit_iff)

text \<open>
  C8. \<open>validate_commit_sha\<close> accepts a string exactly when its length is between 4 and 40
  and each of its characters is a hexadecimal digit; the empty string and every string
  longer than 40 characters are rejected.
\<close>

theorem validate_commit_sha_spec:
  "(validate_commit_sha sha \<longleftrightarrow>
     (4 \<le> length sha \<and> length sha \<le> 40 \<and> (\<forall>c \<in> set sha. hex_digit c)))
   \<and> \<not> validate_commit_sha []
   \<and> (40 < length sha \<longrightarrow> \<not> validate_commit_sha sha)"
proof -
  have "validate_commit_sha sha =
      (if sha = [] then False
       else if length sha < 4 \<or> length sha > 40 then False
       else list_all hex_digit sha)"
    unfolding validate_commit_sha_def all_hex_digit ..
  moreover have "\<not> validate_commit_sha []"
    unfolding validate_commit_sha_def by simp
  ultimately show ?thesis
    by (cases "sha = []") (auto simp: list_all_iff)
qed

theorem validate_commit_sha_spec_witness:
  "validate_commit_sha ''abc123'' \<and> \<not> validate_commit_sha ''xyz123''
   \<and> \<not> validate_commit_sha ''abc''
   \<and> \<not> validate_commit_sha (replicate 41 CHR ''a'')"
  using validate_commit_sha_spec [of "''abc123''"] validate_commit_sha_spec [of "''xyz123''"]
    validate_commit_sha_spec [of "''abc''"] validate_commit_sha_spec [of "replicate 41 CHR ''a''"]
  by (simp add: hex_digit_def)

text \<open>
  C9. \<open>shorten_sha sha n\<close> is the plain prefix \<open>sha[:n]\<close>: for a non-negative \<open>n\<close> the first
  \<open>n\<close> characters, and for any integer \<open>n\<close> the slice that Python takes. The conditional
  never changes the result.
\<close>

theorem shorten_sha_is_prefix:
  "shorten_sha sha (int k) = take k sha \<and> shorten_sha sha n = slice_to sha n"
  by (auto simp: shorten_sha_def slice_to_def)

section \<open>The change classifier\<close>

lemma tests_condition:
  "(list_ex (\<lambda>pattern. py_in pattern p) [''/test/'', ''_test.'', ''.test.'', ''/tests/'', ''spec.''] \<or>
    startswith p ''test/'' \<or> startswith p ''tests/'' \<or> py_in ''/test/'' p \<or> py_in ''/tests/'' p)
   = is_tests p"
  by (auto simp: is_tests_def)

lemma categorize_change_eq:
  "categorize_change cats change = list_append cats (category_of (path_of change)) (path_of change)"
proof -
  define p where "p = dict_get change ''file_path'' []"
  have "categorize_change cats change = list_append cats (category_of p) p"
    unfolding categorize_change_def Let_def p_def [symmetric] tests_condition
    by (simp add: category_of_def is_documentation_def names_manifest_def manifests_def
        is_config_def is_source_code_def)
  then show ?thesis by (simp add: path_of_def p_def)
qed

lemma category_of_cases:
  "category_of p = ''tests'' \<or> category_of p = ''documentation'' \<or> category_of p = ''dependencies''
   \<or> category_of p = ''config'' \<or> category_of p = ''source_code'' \<or> category_of p = ''other''"
  unfolding category_of_def by presburger

lemma bucket_Nil: "bucket k [] = []"
  by (simp add: bucket_def)

lemma bucket_Cons:
  "bucket k (change # rest) =
     (if category_of (path_of change) = k then path_of change # bucket k rest else bucket k rest)"
  by (simp add: bucket_def)

lemma list_append_buckets6:
  "list_append (buckets6 a b c d e f) ''source_code'' p = Inr (buckets6 (a @ [p]) b c d e f)"
  "list_append (buckets6 a b c d e f) ''tests'' p = Inr (buckets6 a (b @ [p]) c d e f)"
  "list_append (buckets6 a b c d e f) ''documentation'' p = Inr (buckets6 a b (c @ [p]) d e f)"
  "list_append (buckets6 a b c d e f) ''config'' p = Inr (buckets6 a b c (d @ [p]) e f)"
  "list_append (buckets6 a b c d e f) ''dependencies'' p = Inr (buckets6 a b c d (e @ [p]) f)"
  "list_append (buckets6 a b c d e f) ''other'' p = Inr (buckets6 a b c d e (f @ [p]))"
  by (simp_all add: list_append_def getitem_def buckets6_def)

lemma categorize_loop_buckets:
  "categorize_loop fcs (buckets6 a b c d e f) =
     Inr (buckets6 (a @ bucket ''source_code'' fcs) (b @ bucket ''tests'' fcs)
        (c @ bucket ''documentation'' fcs) (d @ bucket ''config'' fcs)
        (e @ bucket ''dependencies'' fcs) (f @ bucket ''other'' fcs))"
proof (induction fcs arbitrary: a b c d e f)
  case Nil
  show ?case by (simp add: bucket_Nil)
next
  case (Cons change rest)
  from category_of_cases [of "path_of change"] show ?case
    by (elim disjE) (simp_all add: categorize_change_eq list_append_buckets6 Cons.IH bucket_Cons)
qed

lemma categorize_file_changes_eq:
  "categorize_file_changes fcs =
     Inr [(''source_code'', bucket ''source_code'' fcs), (''tests'', bucket ''tests'' fcs),
          (''documentation'', bucket ''documentation'' fcs), (''config'', bucket ''config'' fcs),
          (''dependencies'', bucket ''dependencies'' fcs), (''other'', bucket ''other'' fcs)]"
  using categorize_loop_buckets [of fcs "[]" "[]" "[]" "[]" "[]" "[]"]
  by (simp add: categorize_file_changes_def buckets6_def)

lemma category_paths_bucket:
  "k \<in> set category_names \<Longrightarrow> category_paths fcs k = bucket k fcs"
  by (auto simp: category_paths_def categorize_file_changes_eq dict_get_def category_names_def)

lemma mset_buckets:
  "mset (bucket ''source_code'' fcs) + mset (bucket ''tests'' fcs) + mset (bucket ''documentation'' fcs)
   + mset (bucket ''config'' fcs) + mset (bucket ''dependencies'' fcs) + mset (bucket ''other'' fcs)
   = mset (map path_of fcs)"
proof (induction fcs)
  case Nil
  show ?case by (simp add: bucket_Nil)
next
  case (Cons change rest)
  from Cons.IH have IH: "mset (bucket ''source_code'' rest) + mset (bucket ''tests'' rest)
      + mset (bucket ''documentation'' rest) + mset (bucket ''config'' rest)
      + mset (bucket ''dependencies'' rest) + mset (bucket ''other'' rest)
      = image_mset path_of (mset rest)"
    by simp
  from category_of_cases [of "path_of change"] show ?case
    by (elim disjE) (simp_all add: bucket_Cons IH)
qed

text \<open>
  C4. Categorization partitions the input paths: it returns a dictionary of the six
  categories, with pairwise different keys, and the paths of all its buckets together are,
  as a multiset, exactly the paths of the input, so each occurrence of a path is in one
  bucket and in no other.
\<close>

theorem categorize_partitions:
  "\<exists>cats. categorize_file_changes fcs = Inr cats
     \<and> map fst cats = category_names \<and> distinct (map fst cats)
     \<and> mset (concat (map snd cats)) = mset (map path_of fcs)"
  using mset_buckets [of fcs]
  by (simp add: categorize_file_changes_eq category_names_def add.assoc)

text \<open>
  C10. For every input, the empty list included, categorization returns a dictionary whose
  keys are exactly the six categories; a bucket that received no path is present as the
  empty list.
\<close>

theorem categorize_keys:
  "(\<exists>cats. categorize_file_changes fcs = Inr cats
      \<and> map fst cats = [''source_code'', ''tests'', ''documentation'', ''config'', ''dependencies'', ''other''])
   \<and> categorize_file_changes [] =
       Inr [(''source_code'', []), (''tests'', []), (''documentation'', []), (''config'', []),
            (''dependencies'', []), (''other'', [])]"
  by (simp add: categorize_file_changes_eq bucket_Nil)

lemma ci_prefix_iff: "ci_prefix p s \<longleftrightarrow> prefix (lower p) (lower s)"
  by (induction p s rule: ci_prefix.induct) (simp_all add: lower_def)

lemma contains_ci_iff: "contains_ci marker msg \<longleftrightarrow> py_in (lower marker) (lower msg)"
proof (induction msg)
  case Nil
  show ?case by (simp add: py_in_def lower_def)
next
  case (Cons c cs)
  have "sublist (lower marker) (lower (c # cs)) \<longleftrightarrow>
        prefix (lower marker) (lower (c # cs)) \<or> sublist (lower marker) (lower cs)"
    by (simp add: lower_def sublist_Cons_right)
  with Cons show ?case by (simp add: ci_prefix_iff py_in_def)
qed

lemma lower_keywords:
  "lower ''BREAKING'' = ''breaking''"
  "lower ''breaking'' = ''breaking''"
  "lower ''breaking change'' = ''breaking change''"
  "lower ''breaking:'' = ''breaking:''"
  "lower ''major:'' = ''major:''"
  "lower ''feat:'' = ''feat:''"
  "lower ''feature:'' = ''feature:''"
  "lower ''add:'' = ''add:''"
  "lower ''new:'' = ''new:''"
  by code_simp+

lemma breaking_scan:
  "list_ex (\<lambda>keyword. py_in (lower keyword) (lower (dict_get commit ''message'' []))) breaking_keywords
     = has_marker breaking_markers commit"
  by (simp add: has_marker_def contains_ci_iff breaking_keywords_def breaking_markers_def
      lower_keywords)

lemma feature_scan:
  "list_ex (\<lambda>keyword. py_in (lower keyword) (lower (dict_get commit ''message'' []))) feature_keywords
     = has_marker feature_markers commit"
  by (simp add: has_marker_def contains_ci_iff feature_keywords_def feature_markers_def
      lower_keywords)

lemma scan_commits_eq:
  "scan_commits cs (b, f) =
     (b \<or> list_ex (has_marker breaking_markers) cs,
      f \<or> list_ex (\<lambda>c. \<not> has_marker breaking_markers c \<and> has_marker feature_markers c) cs)"
proof (induction cs arbitrary: b f)
  case Nil
  show ?case by simp
next
  case (Cons commit rest)
  show ?case
    by (simp only: scan_commits.simps Let_def breaking_scan feature_scan Cons.IH list_ex_Cons_iff list_ex_Nil_iff)
       auto
qed

lemma list_ex_no_breaking:
  "\<not> list_ex B cs \<Longrightarrow> list_ex (\<lambda>c. \<not> B c \<and> F c) cs = list_ex F cs"
  by (induction cs) auto

lemma generate_version_suggestion_flags:
  "generate_version_suggestion fcs cs =
     Inr (if list_ex (has_marker breaking_markers) cs then ''major''
          else if list_ex (\<lambda>c. \<not> has_marker breaking_markers c \<and> has_marker feature_markers c) cs
                  \<or> bucket ''source_code'' fcs \<noteq> [] then ''minor''
          else ''patch'')"
  by (simp add: generate_version_suggestion_def scan_commits_eq categorize_file_changes_eq
      getitem_def)

text \<open>
  C3. Version-bump inference returns \<open>major\<close> whenever some commit message contains a
  breaking-change marker, whatever feature markers the commits have; without one it
  returns \<open>minor\<close> whenever some commit message contains a feature marker or the
  \<open>source_code\<close> bucket is not empty; otherwise it returns \<open>patch\<close>. Markers are matched
  without regard to case, and the two scans behave as independent passes.
\<close>

theorem version_bump_priority:
  "generate_version_suggestion fcs cs =
     Inr (if list_ex (has_marker breaking_markers) cs then ''major''
          else if list_ex (has_marker feature_markers) cs
                  \<or> category_paths fcs ''source_code'' \<noteq> [] then ''minor''
          else ''patch'')"
proof -
  have src: "category_paths fcs ''source_code'' = bucket ''source_code'' fcs"
    by (rule category_paths_bucket) (simp add: category_names_def)
  show ?thesis
  proof (cases "list_ex (has_marker breaking_markers) cs")
    case True
    then show ?thesis
      by (simp add: generate_version_suggestion_flags)
  next
    case False
    then have "list_ex (\<lambda>c. \<not> has_marker breaking_markers c \<and> has_marker feature_markers c) cs
        = list_ex (has_marker feature_markers) cs"
      by (rule list_ex_no_breaking)
    with False show ?thesis
      by (simp add: generate_version_suggestion_flags src)
  qed
qed

lemma in_category_paths:
  "k \<in> set category_names \<Longrightarrow>
   p \<in> set (category_paths fcs k) \<longleftrightarrow> p \<in> set (map path_of fcs) \<and> category_of p = k"
  by (auto simp: category_paths_bucket bucket_def)

text \<open>
  C7. The classifier is total: categorization and version-bump inference return a result
  for every list of file changes and every list of commits. A path that none of the rules
  matches is put under \<open>other\<close>, and without a marker and without source code the bump
  is \<open>patch\<close>.
\<close>

theorem classifier_total:
  "(\<exists>cats. categorize_file_changes fcs = Inr cats)
   \<and> (\<exists>b. generate_version_suggestion fcs cs = Inr b \<and> b \<in> set [''major'', ''minor'', ''patch''])
   \<and> (p \<in> set (map path_of fcs) \<and> \<not> is_tests p \<and> \<not> is_documentation p \<and> \<not> names_manifest p
        \<and> \<not> is_config p \<and> \<not> is_source_code p
      \<longrightarrow> p \<in> set (category_paths fcs ''other''))
   \<and> (\<not> list_ex (has_marker breaking_markers) cs \<and> \<not> list_ex (has_marker feature_markers) cs
        \<and> category_paths fcs ''source_code'' = []
      \<longrightarrow> generate_version_suggestion fcs cs = Inr ''patch'')"
proof (intro conjI impI)
  show "\<exists>cats. categorize_file_changes fcs = Inr cats"
    by (simp add: categorize_file_changes_eq)
  show "\<exists>b. generate_version_suggestion fcs cs = Inr b \<and> b \<in> set [''major'', ''minor'', ''patch'']"
    by (simp add: generate_version_suggestion_flags)
next
  assume "p \<in> set (map path_of fcs) \<and> \<not> is_tests p \<and> \<not> is_documentation p \<and> \<not> names_manifest p
        \<and> \<not> is_config p \<and> \<not> is_source_code p"
  then have "p \<in> set (map path_of fcs)" and "category_of p = ''other''"
    by (simp_all add: category_of_def)
  moreover have "''other'' \<in> set category_names"
    by (simp add: category_names_def)
  ultimately show "p \<in> set (category_paths fcs ''other'')"
    by (simp only: in_category_paths)
next
  assume "\<not> list_ex (has_marker breaking_markers) cs \<and> \<not> list_ex (has_marker feature_markers) cs
        \<and> category_paths fcs ''source_code'' = []"
  then show "generate_version_suggestion fcs cs = Inr ''patch''"
    by (simp add: generate_version_suggestion_flags list_ex_no_breaking
        category_paths_bucket category_names_def)
qed

theorem classifier_total_witness:
  "''Makefile'' \<in> set (map path_of [[(''file_path'', ''Makefile'')], []])
   \<and> \<not> is_tests ''Makefile'' \<and> \<not> is_documentation ''Makefile'' \<and> \<not> names_manifest ''Makefile''
   \<and> \<not> is_config ''Makefile'' \<and> \<not> is_source_code ''Makefile''
   \<and> \<not> list_ex (has_marker breaking_markers) [[(''message'', ''chore: z'')], []]
   \<and> \<not> list_ex (has_marker feature_markers) [[(''message'', ''chore: z'')], []]
   \<and> category_paths [[(''file_path'', ''Makefile'')], []] ''source_code'' = []
   \<and> ''Makefile'' \<in> set (category_paths [[(''file_path'', ''Makefile'')], []] ''other'')
   \<and> generate_version_suggestion [[(''file_path'', ''Makefile'')], []] [[(''message'', ''chore: z'')], []]
       = Inr ''patch''"
proof -
  have h: "''Makefile'' \<in> set (map path_of [[(''file_path'', ''Makefile'')], []])
     \<and> \<not> is_tests ''Makefile'' \<and> \<not> is_documentation ''Makefile'' \<and> \<not> names_manifest ''Makefile''
     \<and> \<not> is_config ''Makefile'' \<and> \<not> is_source_code ''Makefile''"
    by code_simp
  have g: "\<not> list_ex (has_marker breaking_markers) [[(''message'', ''chore: z'')], []]
     \<and> \<not> list_ex (has_marker feature_markers) [[(''message'', ''chore: z'')], []]
     \<and> category_paths [[(''file_path'', ''Makefile'')], []] ''source_code'' = []"
    by code_simp
  from h g
    classifier_total [of "[[(''file_path'', ''Makefile'')], []]" "[[(''message'', ''chore: z'')], []]"
      "''Makefile''"]
  show ?thesis by blast
qed

text \<open>
  C6, as the code has it. A path that is in neither the \<open>tests\<close> nor the \<open>documentation\<close>
  bucket is in the \<open>dependencies\<close> bucket exactly when the name of one of the manifests
  occurs somewhere in the path.
\<close>

theorem dependencies_bucket_iff:
  assumes "p \<in> set (map path_of fcs)"
    and "p \<notin> set (category_paths fcs ''tests'')"
    and "p \<notin> set (category_paths fcs ''documentation'')"
  shows "p \<in> set (category_paths fcs ''dependencies'') \<longleftrightarrow> list_ex (\<lambda>m. py_in m p) manifests"
proof -
  have "category_of p \<noteq> ''tests''" and "category_of p \<noteq> ''documentation''"
    using assms by (simp_all add: in_category_paths category_names_def)
  then have "\<not> is_tests p" and "\<not> is_documentation p"
    by (auto simp: category_of_def split: if_splits)
  then have "category_of p = ''dependencies'' \<longleftrightarrow> names_manifest p"
    by (simp add: category_of_def)
  with assms(1) show ?thesis
    by (simp add: in_category_paths category_names_def names_manifest_def)
qed

theorem dependencies_bucket_iff_witness:
  "''package.json'' \<in> set (category_paths
       [[(''file_path'', ''package.json'')], [(''file_path'', ''config.yaml'')]] ''dependencies'')
   \<and> list_ex (\<lambda>m. py_in m ''package.json'') manifests
   \<and> ''config.yaml'' \<notin> set (category_paths
       [[(''file_path'', ''package.json'')], [(''file_path'', ''config.yaml'')]] ''dependencies'')
   \<and> \<not> list_ex (\<lambda>m. py_in m ''config.yaml'') manifests"
proof -
  let ?fcs = "[[(''file_path'', ''package.json'')], [(''file_path'', ''config.yaml'')]]"
  have a: "''package.json'' \<in> set (map path_of ?fcs) \<and> ''config.yaml'' \<in> set (map path_of ?fcs)"
    by code_simp
  have b: "category_paths ?fcs ''tests'' = [] \<and> category_paths ?fcs ''documentation'' = []"
    by code_simp
  have c: "list_ex (\<lambda>m. py_in m ''package.json'') manifests
      \<and> \<not> list_ex (\<lambda>m. py_in m ''config.yaml'') manifests"
    by code_simp
  from a b c dependencies_bucket_iff [of "''package.json''" ?fcs]
    dependencies_bucket_iff [of "''config.yaml''" ?fcs]
  show ?thesis by simp
qed

text \<open>
  C6, as the claim has it, fails: \<open>src/Gemfile_parser.rb\<close> is neither a test nor
  documentation and is put under \<open>dependencies\<close>, while its file name is not a manifest.
\<close>

theorem dependencies_by_filename_counterexample:
  "category_paths [[(''file_path'', ''src/Gemfile_parser.rb'')]] ''tests'' = []
   \<and> category_paths [[(''file_path'', ''src/Gemfile_parser.rb'')]] ''documentation'' = []
   \<and> category_paths [[(''file_path'', ''src/Gemfile_parser.rb'')]] ''dependencies''
       = [''src/Gemfile_parser.rb'']
   \<and> basename ''src/Gemfile_parser.rb'' = ''Gemfile_parser.rb''
   \<and> basename ''src/Gemfile_parser.rb'' \<notin> set manifests"
  by code_simp

section \<open>Repository identifiers\<close>

lemma rstrip_unchanged: "s \<noteq> [] \<Longrightarrow> last s \<noteq> c \<Longrightarrow> rstrip s c = s"
  by (cases s rule: rev_cases) (simp_all add: rstrip_def)

lemma rstrip_snoc: "rstrip (s @ [c]) c = rstrip s c"
  by (simp add: rstrip_def)

lemma replace_at_prefix: "old \<noteq> [] \<Longrightarrow> replace (old @ s) old new = new @ replace s old new"
  by (cases old) simp_all

lemma replace_absent: "\<not> sublist old s \<Longrightarrow> replace s old new = s"
proof (induction s)
  case Nil
  then show ?case by (cases old) simp_all
next
  case (Cons c cs)
  then have "old \<noteq> []" "\<not> prefix old (c # cs)" "\<not> sublist old cs"
    by (auto simp: sublist_Cons_right)
  with Cons.IH show ?case by simp
qed

lemma prefix_before_sep:
  assumes "prefix p (u @ c # r)" and "c \<notin> set p"
  shows "prefix p u"
proof -
  from assms(1) consider "prefix p u" | us where "p = u @ us" "prefix us (c # r)"
    by (auto simp: prefix_append)
  then show ?thesis
  proof cases
    case 1
    then show ?thesis .
  next
    case 2
    with assms(2) have "us = []" by (cases us) auto
    with 2 show ?thesis by simp
  qed
qed

lemma replace_across_sep:
  assumes "old \<noteq> []" and "c \<notin> set old" and "\<not> sublist old a"
  shows "replace (a @ c # b) old new = a @ c # replace b old new"
  using assms(3)
proof (induction a)
  case Nil
  from assms(1,2) have "\<not> prefix old (c # b)" by (cases old) auto
  with assms(1) show ?case by simp
next
  case (Cons x a)
  then have np: "\<not> prefix old (x # a)" and ns: "\<not> sublist old a"
    by (auto simp: sublist_Cons_right)
  have "\<not> prefix old ((x # a) @ c # b)"
    using prefix_before_sep [OF _ assms(2)] np by blast
  with assms(1) Cons.IH [OF ns] show ?case by simp
qed

lemma replace_trailing:
  assumes "old \<noteq> []" and "hd old \<notin> set (tl old)" and "\<not> sublist old s"
  shows "replace (s @ old) old [] = s"
  using assms(3)
proof (induction s)
  case Nil
  from replace_at_prefix [OF assms(1), of "[]" "[]"] assms(1) show ?case by simp
next
  case (Cons x s)
  then have np: "\<not> prefix old (x # s)" and ns: "\<not> sublist old s"
    by (auto simp: sublist_Cons_right)
  have "\<not> prefix old ((x # s) @ old)"
  proof
    assume "prefix old ((x # s) @ old)"
    then have "prefix old (x # s) \<or> (\<exists>us. old = (x # s) @ us \<and> prefix us old)"
      by (simp only: prefix_append)
    with np obtain us where us: "old = (x # s) @ us" "prefix us old"
      by blast
    show False
    proof (cases us)
      case Nil
      with us np show False by simp
    next
      case (Cons u us')
      with us(2) assms(1) have "u = hd old" by (cases old) auto
      moreover from us(1) Cons have "u \<in> set (tl old)" by simp
      ultimately show False using assms(2) by simp
    qed
  qed
  with assms(1) Cons.IH [OF ns] show ?case by simp
qed

lemma split_no_sep: "sep \<notin> set s \<Longrightarrow> split s sep = [s]"
  by (induction s) auto

lemma split_at_sep: "sep \<notin> set a \<Longrightarrow> split (a @ sep # b) sep = a # split b sep"
  by (induction a) auto

lemma sublist_filter_length:
  "sublist p s \<Longrightarrow> length (filter P p) \<le> length (filter P s)"
  by (auto simp: sublist_def)

lemma sublist_across_sep:
  assumes "c \<notin> set p"
  shows "sublist p (a @ c # b) \<longleftrightarrow> sublist p a \<or> sublist p b"
proof
  assume "sublist p (a @ c # b)"
  then consider "sublist p a" | "sublist p (c # b)"
    | xs1 xs2 where "p = xs1 @ xs2" "suffix xs1 a" "prefix xs2 (c # b)"
    by (auto simp: sublist_append)
  then show "sublist p a \<or> sublist p b"
  proof cases
    case 1
    then show ?thesis by simp
  next
    case 2
    then have "prefix p (c # b) \<or> sublist p b" by (simp add: sublist_Cons_right)
    moreover have "p = []" if "prefix p (c # b)"
      using that assms by (cases p) auto
    ultimately show ?thesis by auto
  next
    case 3
    with assms have "xs2 = []" by (cases xs2) auto
    with 3 show ?thesis by auto
  qed
next
  assume "sublist p a \<or> sublist p b"
  then show "sublist p (a @ c # b)"
    by (metis sublist_append sublist_Cons_right)
qed

lemma sublist_before_tail:
  assumes "p \<noteq> []" and "last p \<notin> set b" and "sublist p (a @ b)"
  shows "sublist p a"
proof -
  from assms(3) consider "sublist p a" | "sublist p b"
    | xs1 xs2 where "p = xs1 @ xs2" "suffix xs1 a" "prefix xs2 b"
    by (auto simp: sublist_append)
  then show ?thesis
  proof cases
    case 1
    then show ?thesis .
  next
    case 2
    then have "set p \<subseteq> set b" by (rule set_mono_sublist)
    with assms(1,2) show ?thesis using last_in_set by blast
  next
    case 3
    have "xs2 = []"
    proof (rule ccontr)
      assume "xs2 \<noteq> []"
      with 3(1) have "last p = last xs2" by simp
      moreover from \<open>xs2 \<noteq> []\<close> have "last xs2 \<in> set xs2" by simp
      moreover from 3(3) have "set xs2 \<subseteq> set b" by (rule set_mono_prefix)
      ultimately show False using assms(2) by auto
    qed
    with 3 show ?thesis by auto
  qed
qed

lemma py_in_char: "py_in [c] s \<longleftrightarrow> c \<in> set s"
proof (induction s)
  case Nil
  show ?case by (simp add: py_in_def)
next
  case (Cons x s)
  then show ?case by (auto simp: py_in_def sublist_Cons_right)
qed

lemma parse_repository_url_from_steps:
  assumes "rstrip s CHR ''/'' = t"
    and "(if startswith t ''https://github.com/'' then replace t ''https://github.com/'' []
          else if startswith t ''git@github.com:''
          then replace (replace t ''git@github.com:'' []) ''.git'' []
          else t) = owner @ CHR ''/'' # name"
    and "CHR ''/'' \<notin> set owner" and "CHR ''/'' \<notin> set name"
  shows "parse_repository_url s = Inr (owner, name)"
proof -
  have "py_in ''/'' (owner @ CHR ''/'' # name)"
    by (simp add: py_in_char)
  moreover have "split (owner @ CHR ''/'' # name) CHR ''/'' = [owner, name]"
    using assms(3,4) by (simp add: split_at_sep split_no_sep)
  ultimately show ?thesis
    unfolding parse_repository_url_def Let_def assms(1) assms(2) by simp
qed

lemma owner_name_facts:
  assumes "CHR ''/'' \<notin> set owner" and "CHR ''/'' \<notin> set name"
  shows "\<not> sublist ''https://github.com/'' (owner @ CHR ''/'' # name)"
    and "\<not> sublist ''https://github.com/'' (owner @ CHR ''/'' # name @ ''/'')"
proof -
  have three: "length (filter (\<lambda>c. c = CHR ''/'') ''https://github.com/'') = 3"
    by simp
  have "length (filter (\<lambda>c. c = CHR ''/'') (owner @ CHR ''/'' # name)) = 1"
    using assms by (auto simp: filter_empty_conv)
  with three sublist_filter_length
    [of "''https://github.com/''" "owner @ CHR ''/'' # name" "\<lambda>c. c = CHR ''/''"]
  show "\<not> sublist ''https://github.com/'' (owner @ CHR ''/'' # name)"
    by linarith
  have "length (filter (\<lambda>c. c = CHR ''/'') (owner @ CHR ''/'' # name @ ''/'')) = 2"
    using assms by (auto simp: filter_empty_conv)
  with three sublist_filter_length
    [of "''https://github.com/''" "owner @ CHR ''/'' # name @ ''/''" "\<lambda>c. c = CHR ''/''"]
  show "\<not> sublist ''https://github.com/'' (owner @ CHR ''/'' # name @ ''/'')"
    by linarith
qed

lemma last_owner_name:
  assumes "CHR ''/'' \<notin> set name" and "name \<noteq> []"
  shows "last (pre @ owner @ CHR ''/'' # name) \<noteq> CHR ''/''"
proof -
  have "last (pre @ owner @ CHR ''/'' # name) = last name"
    using assms(2) by simp
  moreover have "last name \<in> set name"
    using assms(2) by simp
  ultimately show ?thesis
    using assms(1) by metis
qed

lemma parse_repository_url_forms:
  assumes sl: "CHR ''/'' \<notin> set owner" "CHR ''/'' \<notin> set name"
    and ne: "name \<noteq> []"
    and git: "\<not> py_in ''.git'' owner" "\<not> py_in ''.git'' name"
    and ssh: "\<not> py_in ''git@github.com:'' owner" "\<not> py_in ''git@github.com:'' name"
  shows "parse_repository_url (owner @ ''/'' @ name) = Inr (owner, name)
       \<and> parse_repository_url (''https://github.com/'' @ owner @ ''/'' @ name) = Inr (owner, name)
       \<and> parse_repository_url (''https://github.com/'' @ owner @ ''/'' @ name @ ''/'')
           = Inr (owner, name)
       \<and> parse_repository_url (''git@github.com:'' @ owner @ ''/'' @ name @ ''.git'')
           = Inr (owner, name)"
proof -
  define full where "full = owner @ CHR ''/'' # name"
  have full_ne: "full \<noteq> []" and full_last: "last full \<noteq> CHR ''/''"
    using last_owner_name [OF sl(2) ne, of "[]" owner] by (simp_all add: full_def)
  have no_https: "\<not> sublist ''https://github.com/'' full"
    unfolding full_def by (rule owner_name_facts [OF sl])
  have no_ssh: "\<not> sublist ''git@github.com:'' full"
    using ssh unfolding full_def by (simp add: sublist_across_sep py_in_def)
  have no_ssh_tail: "\<not> sublist ''git@github.com:'' (full @ ''.git'')"
    using sublist_before_tail [of "''git@github.com:''" "''.git''" full] no_ssh by auto
  have not_https: "\<not> startswith full ''https://github.com/''"
    using no_https by (auto simp: startswith_def)
  have not_ssh: "\<not> startswith full ''git@github.com:''"
    using no_ssh by (auto simp: startswith_def)
  have strip_git: "replace (full @ ''.git'') ''.git'' [] = full"
  proof -
    have "replace (owner @ CHR ''/'' # (name @ ''.git'')) ''.git'' []
        = owner @ CHR ''/'' # replace (name @ ''.git'') ''.git'' []"
      using git(1) by (intro replace_across_sep) (simp_all add: py_in_def)
    moreover have "replace (name @ ''.git'') ''.git'' [] = name"
      using git(2) by (intro replace_trailing) (simp_all add: py_in_def)
    ultimately show ?thesis by (simp add: full_def)
  qed
  have 1: "parse_repository_url full = Inr (owner, name)"
  proof (rule parse_repository_url_from_steps [OF _ _ sl])
    show "rstrip full CHR ''/'' = full"
      by (rule rstrip_unchanged [OF full_ne full_last])
    show "(if startswith full ''https://github.com/'' then replace full ''https://github.com/'' []
          else if startswith full ''git@github.com:''
          then replace (replace full ''git@github.com:'' []) ''.git'' []
          else full) = owner @ CHR ''/'' # name"
      using not_https not_ssh by (simp add: full_def)
  qed
  have 2: "parse_repository_url (''https://github.com/'' @ full) = Inr (owner, name)"
  proof (rule parse_repository_url_from_steps [OF _ _ sl])
    show "rstrip (''https://github.com/'' @ full) CHR ''/'' = ''https://github.com/'' @ full"
      using full_ne full_last by (intro rstrip_unchanged) simp_all
    have "startswith (''https://github.com/'' @ full) ''https://github.com/''"
      unfolding startswith_def by (rule prefixI) simp
    moreover have "replace (''https://github.com/'' @ full) ''https://github.com/'' [] = full"
      using replace_at_prefix [of "''https://github.com/''" full "[]"]
        replace_absent [OF no_https, of "[]"] by simp
    ultimately show "(if startswith (''https://github.com/'' @ full) ''https://github.com/''
          then replace (''https://github.com/'' @ full) ''https://github.com/'' []
          else if startswith (''https://github.com/'' @ full) ''git@github.com:''
          then replace (replace (''https://github.com/'' @ full) ''git@github.com:'' []) ''.git'' []
          else ''https://github.com/'' @ full) = owner @ CHR ''/'' # name"
      by (simp only: if_True full_def)
  qed
  have 3: "parse_repository_url ((''https://github.com/'' @ full) @ [CHR ''/'']) = Inr (owner, name)"
  proof (rule parse_repository_url_from_steps [OF _ _ sl])
    show "rstrip ((''https://github.com/'' @ full) @ [CHR ''/'']) CHR ''/'' = ''https://github.com/'' @ full"
      using full_ne full_last
      by (simp only: rstrip_snoc) (intro rstrip_unchanged, simp_all)
    have "startswith (''https://github.com/'' @ full) ''https://github.com/''"
      unfolding startswith_def by (rule prefixI) simp
    moreover have "replace (''https://github.com/'' @ full) ''https://github.com/'' [] = full"
      using replace_at_prefix [of "''https://github.com/''" full "[]"]
        replace_absent [OF no_https, of "[]"] by simp
    ultimately show "(if startswith (''https://github.com/'' @ full) ''https://github.com/''
          then replace (''https://github.com/'' @ full) ''https://github.com/'' []
          else if startswith (''https://github.com/'' @ full) ''git@github.com:''
          then replace (replace (''https://github.com/'' @ full) ''git@github.com:'' []) ''.git'' []
          else ''https://github.com/'' @ full) = owner @ CHR ''/'' # name"
      by (simp only: if_True full_def)
  qed
  have 4: "parse_repository_url (''git@github.com:'' @ full @ ''.git'') = Inr (owner, name)"
  proof (rule parse_repository_url_from_steps [OF _ _ sl])
    show "rstrip (''git@github.com:'' @ full @ ''.git'') CHR ''/'' = ''git@github.com:'' @ full @ ''.git''"
      by (intro rstrip_unchanged) simp_all
    have a: "\<not> startswith (''git@github.com:'' @ full @ ''.git'') ''https://github.com/''"
      by (simp add: startswith_def)
    have b: "startswith (''git@github.com:'' @ full @ ''.git'') ''git@github.com:''"
      unfolding startswith_def by (rule prefixI) simp
    have c: "replace (''git@github.com:'' @ full @ ''.git'') ''git@github.com:'' [] = full @ ''.git''"
      using replace_at_prefix [of "''git@github.com:''" "full @ ''.git''" "[]"]
        replace_absent [OF no_ssh_tail, of "[]"] by simp
    have "(if startswith (''git@github.com:'' @ full @ ''.git'') ''https://github.com/''
          then replace (''git@github.com:'' @ full @ ''.git'') ''https://github.com/'' []
          else if startswith (''git@github.com:'' @ full @ ''.git'') ''git@github.com:''
          then replace (replace (''git@github.com:'' @ full @ ''.git'') ''git@github.com:'' []) ''.git'' []
          else ''git@github.com:'' @ full @ ''.git'') = full"
      using a b by (simp only: if_True if_False c strip_git)
    then show "(if startswith (''git@github.com:'' @ full @ ''.git'') ''https://github.com/''
          then replace (''git@github.com:'' @ full @ ''.git'') ''https://github.com/'' []
          else if startswith (''git@github.com:'' @ full @ ''.git'') ''git@github.com:''
          then replace (replace (''git@github.com:'' @ full @ ''.git'') ''git@github.com:'' []) ''.git'' []
          else ''git@github.com:'' @ full @ ''.git'') = owner @ CHR ''/'' # name"
      by (simp only: full_def)
  qed
  from 1 2 3 4 show ?thesis by (simp add: full_def)
qed

lemma parse_repository_github_forms:
  assumes sl: "CHR ''/'' \<notin> set owner" "CHR ''/'' \<notin> set name" and ne: "name \<noteq> []"
  shows "parse_repository (owner @ ''/'' @ name) = Inr (owner @ ''/'' @ name)
       \<and> parse_repository (''https://github.com/'' @ owner @ ''/'' @ name) = Inr (owner @ ''/'' @ name)
       \<and> parse_repository (''https://github.com/'' @ owner @ ''/'' @ name @ ''/'')
           = Inr (owner @ ''/'' @ name)"
proof -
  define full where "full = owner @ CHR ''/'' # name"
  have full_ne: "full \<noteq> []" and full_last: "last full \<noteq> CHR ''/''"
    using last_owner_name [OF sl(2) ne, of "[]" owner] by (simp_all add: full_def)
  have strip: "rstrip full CHR ''/'' = full"
    by (rule rstrip_unchanged [OF full_ne full_last])
  have no_https: "\<not> sublist ''https://github.com/'' full"
    and no_https': "\<not> sublist ''https://github.com/'' (full @ ''/'')"
    unfolding full_def using owner_name_facts [OF sl] by simp_all
  have not_https: "\<not> startswith full ''https://github.com/''"
    using no_https by (auto simp: startswith_def)
  have slash: "py_in ''/'' full"
    by (simp add: py_in_char full_def)
  have 1: "parse_repository full = Inr full"
    using not_https slash by (simp add: parse_repository_def)
  have sw: "startswith (''https://github.com/'' @ t) ''https://github.com/''" for t
    unfolding startswith_def by (rule prefixI) simp
  have "replace (''https://github.com/'' @ full) ''https://github.com/'' [] = full"
    using replace_at_prefix [of "''https://github.com/''" full "[]"]
      replace_absent [OF no_https, of "[]"] by simp
  with sw [of full] strip
  have 2: "parse_repository (''https://github.com/'' @ full) = Inr full"
    by (simp only: parse_repository_def if_True)
  have "replace (''https://github.com/'' @ full @ ''/'') ''https://github.com/'' [] = full @ ''/''"
    using replace_at_prefix [of "''https://github.com/''" "full @ ''/''" "[]"]
      replace_absent [OF no_https', of "[]"] by simp
  moreover have "rstrip (full @ ''/'') CHR ''/'' = full"
    using strip by (simp only: rstrip_snoc)
  ultimately
  have 3: "parse_repository (''https://github.com/'' @ full @ ''/'') = Inr full"
    using sw [of "full @ ''/''"] by (simp only: parse_repository_def if_True)
  from 1 2 3 show ?thesis by (simp add: full_def)
qed

text \<open>
  C2, as the code has it. The host is GitHub: for an owner and a non-empty name without
  \<open>/\<close>, in which neither \<open>.git\<close> nor \<open>git@github.com:\<close> occurs, \<open>parse_repository_url\<close>
  maps \<open>owner/name\<close>, \<open>https://github.com/owner/name\<close>, the same with a trailing slash,
  and \<open>git@github.com:owner/name.git\<close> to the pair of owner and name; \<open>parse_repository\<close>
  maps the first three to the string \<open>owner/name\<close>.
\<close>

theorem parse_repository_url_github_forms:
  assumes "CHR ''/'' \<notin> set owner" and "CHR ''/'' \<notin> set name" and "name \<noteq> []"
    and "\<not> py_in ''.git'' owner" and "\<not> py_in ''.git'' name"
    and "\<not> py_in ''git@github.com:'' owner" and "\<not> py_in ''git@github.com:'' name"
  shows "parse_repository_url (owner @ ''/'' @ name) = Inr (owner, name)
       \<and> parse_repository_url (''https://github.com/'' @ owner @ ''/'' @ name) = Inr (owner, name)
       \<and> parse_repository_url (''https://github.com/'' @ owner @ ''/'' @ name @ ''/'')
           = Inr (owner, name)
       \<and> parse_repository_url (''git@github.com:'' @ owner @ ''/'' @ name @ ''.git'')
           = Inr (owner, name)
       \<and> parse_repository (owner @ ''/'' @ name) = Inr (owner @ ''/'' @ name)
       \<and> parse_repository (''https://github.com/'' @ owner @ ''/'' @ name)
           = Inr (owner @ ''/'' @ name)
       \<and> parse_repository (''https://github.com/'' @ owner @ ''/'' @ name @ ''/'')
           = Inr (owner @ ''/'' @ name)"
  using parse_repository_url_forms [OF assms]
    parse_repository_github_forms [OF assms(1) assms(2) assms(3)]
  by (simp only: simp_thms)

theorem parse_repository_url_github_forms_witness:
  "parse_repository_url ''octo/demo'' = Inr (''octo'', ''demo'')
   \<and> parse_repository_url ''https://github.com/octo/demo'' = Inr (''octo'', ''demo'')
   \<and> parse_repository_url ''https://github.com/octo/demo/'' = Inr (''octo'', ''demo'')
   \<and> parse_repository_url ''git@github.com:octo/demo.git'' = Inr (''octo'', ''demo'')
   \<and> parse_repository ''octo/demo'' = Inr ''octo/demo''
   \<and> parse_repository ''https://github.com/octo/demo'' = Inr ''octo/demo''
   \<and> parse_repository ''https://github.com/octo/demo/'' = Inr ''octo/demo''"
proof -
  have "CHR ''/'' \<notin> set ''octo''" "CHR ''/'' \<notin> set ''demo''" "''demo'' \<noteq> []"
    by simp_all
  moreover have "\<not> py_in ''.git'' ''octo''" "\<not> py_in ''.git'' ''demo''"
    "\<not> py_in ''git@github.com:'' ''octo''" "\<not> py_in ''git@github.com:'' ''demo''"
    by code_simp+
  ultimately show ?thesis
    using parse_repository_url_github_forms [of "''octo''" "''demo''"] by simp
qed

text \<open>
  C2, as the claim has it, fails: with another host the URL form and the SSH form do not
  give the pair that the bare form gives, and \<open>parse_repository\<close> leaves the SSH form of
  GitHub itself as it is.
\<close>

theorem parse_repository_url_other_host_counterexample:
  "parse_repository_url ''octo/demo'' = Inr (''octo'', ''demo'')
   \<and> parse_repository_url ''https://gitlab.com/octo/demo'' = Inr (''https:'', [])
   \<and> parse_repository_url ''https://gitlab.com/octo/demo/'' = Inr (''https:'', [])
   \<and> parse_repository_url ''gitlab.com:octo/demo.git'' = Inr (''gitlab.com:octo'', ''demo.git'')
   \<and> parse_repository ''git@github.com:octo/demo.git'' = Inr ''git@github.com:octo/demo.git''"
  by code_simp

section \<open>Revision comparison\<close>

text \<open>
  C5. Whenever the analysis returns a result, its totals are the sums of the additions and
  of the deletions over its file changes, and the number of its file changes.
\<close>

theorem analysis_totals:
  assumes "fst (analyze_repository_changes gh repo from_c to_c w) = Inr r"
  shows "total_additions r = sum_list (map additions (file_changes r))
       \<and> total_deletions r = sum_list (map deletions (file_changes r))
       \<and> total_files_changed r = int (length (file_changes r))"
  using assms
  by (auto simp: analyze_repository_changes_def Let_def split: sum.splits prod.splits)

lemma demo_analysis_run:
  "fst (analyze_repository_changes demo_github ''octo/demo'' ''v1.0.0'' ''v1.1.0'' ()) = Inr demo_analysis"
  by code_simp

theorem analysis_totals_witness:
  "fst (analyze_repository_changes demo_github ''octo/demo'' ''v1.0.0'' ''v1.1.0'' ()) = Inr demo_analysis
   \<and> total_additions demo_analysis = 13 \<and> total_deletions demo_analysis = 2
   \<and> total_files_changed demo_analysis = 2 \<and> length (file_changes demo_analysis) = 2"
  using analysis_totals [OF demo_analysis_run] demo_analysis_run
  by (simp add: demo_analysis_def)

section \<open>The orchestrator\<close>

lemma EmailSenderTool_run_returns:
  "\<exists>reply. EmailSenderTool_run send_email recipient subject release_log repo = Inr reply"
  by (simp add: EmailSenderTool_run_def split: sum.splits)

lemma GitHubAnalyzerTool_run_returns:
  "\<exists>reply. fst (GitHubAnalyzerTool_run gh dumps repo from_c to_c w) = Inr reply"
  by (simp add: GitHubAnalyzerTool_run_def split: sum.splits prod.splits)

text \<open>
  C1, as the code has it. When one of the steps of the run raises an exception \<open>e\<close> to
  \<open>process_request\<close> (a task constructor, or the run of the crew, the steps before it
  having returned), the outcome is a failure, never a success: it carries the repository,
  both commits and the recipient of the request, and as message the text
  \<open>Error processing request: \<close> followed by \<open>str(e)\<close>. Exceptions are those that
  \<open>except Exception\<close> catches. An error inside the analysis tool or the email tool is
  caught there and returned as text, so it is not among them.
\<close>

theorem process_request_stage_failure:
  "(github_stage fw self request = Inl e
      \<longrightarrow> outcome_of (process_request fw self request) = Some (request_failure request e))
   \<and> (github_stage fw self request = Inr t1 \<and> code_stage fw self = Inl e
      \<longrightarrow> outcome_of (process_request fw self request) = Some (request_failure request e))
   \<and> (github_stage fw self request = Inr t1 \<and> code_stage fw self = Inr t2
        \<and> log_stage fw self request = Inl e
      \<longrightarrow> outcome_of (process_request fw self request) = Some (request_failure request e))
   \<and> (github_stage fw self request = Inr t1 \<and> code_stage fw self = Inr t2
        \<and> log_stage fw self request = Inr t3 \<and> email_stage fw self request = Inl e
      \<longrightarrow> outcome_of (process_request fw self request) = Some (request_failure request e))
   \<and> (github_stage fw self request = Inr t1 \<and> code_stage fw self = Inr t2
        \<and> log_stage fw self request = Inr t3 \<and> email_stage fw self request = Inr t4
        \<and> crew_stage fw self t1 t2 t3 t4 = Inl e
      \<longrightarrow> outcome_of (process_request fw self request) = Some (request_failure request e))"
proof -
  have failed: "outcome_of (process_request fw self request) = Some (request_failure request e)"
    if "process_request_try fw self request = Inl e"
    using that by (simp add: process_request_def outcome_of_def request_failure_def)
  show ?thesis
  proof (intro conjI impI; (elim conjE)?)
    assume "github_stage fw self request = Inl e"
    then show "outcome_of (process_request fw self request) = Some (request_failure request e)"
      by (intro failed) (simp add: process_request_try_def github_stage_def)
  next
    assume "github_stage fw self request = Inr t1" "code_stage fw self = Inl e"
    then show "outcome_of (process_request fw self request) = Some (request_failure request e)"
      by (intro failed) (simp add: process_request_try_def github_stage_def code_stage_def)
  next
    assume "github_stage fw self request = Inr t1" "code_stage fw self = Inr t2"
      "log_stage fw self request = Inl e"
    then show "outcome_of (process_request fw self request) = Some (request_failure request e)"
      by (intro failed)
        (simp add: process_request_try_def github_stage_def code_stage_def log_stage_def)
  next
    assume "github_stage fw self request = Inr t1" "code_stage fw self = Inr t2"
      "log_stage fw self request = Inr t3" "email_stage fw self request = Inl e"
    then show "outcome_of (process_request fw self request) = Some (request_failure request e)"
      by (intro failed)
        (simp add: process_request_try_def github_stage_def code_stage_def log_stage_def
          email_stage_def)
  next
    assume "github_stage fw self request = Inr t1" "code_stage fw self = Inr t2"
      "log_stage fw self request = Inr t3" "email_stage fw self request = Inr t4"
      "crew_stage fw self t1 t2 t3 t4 = Inl e"
    then show "outcome_of (process_request fw self request) = Some (request_failure request e)"
      by (intro failed)
        (simp add: process_request_try_def github_stage_def code_stage_def log_stage_def
          email_stage_def crew_stage_def)
  qed
qed

lemmas stage_defs = github_stage_def code_stage_def log_stage_def email_stage_def crew_stage_def
  failing_at_def demo_crew_def demo_request_def request_failure_def

theorem process_request_stage_failure_witness:
  "outcome_of (process_request (failing_at 1) demo_crew demo_request)
     = Some (Failure ''octo/demo'' ''v1.0.0'' ''v1.1.0'' ''dev@example.com''
         ''Error processing request: bad repository'')
   \<and> outcome_of (process_request (failing_at 2) demo_crew demo_request)
     = Some (Failure ''octo/demo'' ''v1.0.0'' ''v1.1.0'' ''dev@example.com''
         ''Error processing request: bad analysis task'')
   \<and> outcome_of (process_request (failing_at 3) demo_crew demo_request)
     = Some (Failure ''octo/demo'' ''v1.0.0'' ''v1.1.0'' ''dev@example.com''
         ''Error processing request: bad log task'')
   \<and> outcome_of (process_request (failing_at 4) demo_crew demo_request)
     = Some (Failure ''octo/demo'' ''v1.0.0'' ''v1.1.0'' ''dev@example.com''
         ''Error processing request: bad email task'')
   \<and> outcome_of (process_request (failing_at 5) demo_crew demo_request)
     = Some (Failure ''octo/demo'' ''v1.0.0'' ''v1.1.0'' ''dev@example.com''
         ''Error processing request: boom'')
   \<and> outcome_of (process_request (failing_at 0) demo_crew demo_request)
     = Some (Success ''octo/demo'' ''v1.0.0'' ''v1.1.0'' ''dev@example.com''
         ''githubcode<githublog<code<githubemail<log<code<github'')"
proof -
  note th = process_request_stage_failure [where self = demo_crew and request = demo_request]
  have 1: "outcome_of (process_request (failing_at 1) demo_crew demo_request)
     = Some (Failure ''octo/demo'' ''v1.0.0'' ''v1.1.0'' ''dev@example.com''
         ''Error processing request: bad repository'')"
    using th [where fw = "failing_at 1" and e = "Exn ''ValueError'' ''bad repository''"]
    by (simp add: stage_defs)
  have 2: "outcome_of (process_request (failing_at 2) demo_crew demo_request)
     = Some (Failure ''octo/demo'' ''v1.0.0'' ''v1.1.0'' ''dev@example.com''
         ''Error processing request: bad analysis task'')"
    using th [where fw = "failing_at 2" and e = "Exn ''TypeError'' ''bad analysis task''"
        and ?t1.0 = "''github''"]
    by (simp add: stage_defs)
  have 3: "outcome_of (process_request (failing_at 3) demo_crew demo_request)
     = Some (Failure ''octo/demo'' ''v1.0.0'' ''v1.1.0'' ''dev@example.com''
         ''Error processing request: bad log task'')"
    using th [where fw = "failing_at 3" and e = "Exn ''TypeError'' ''bad log task''"
        and ?t1.0 = "''github''" and ?t2.0 = "''code''"]
    by (simp add: stage_defs)
  have 4: "outcome_of (process_request (failing_at 4) demo_crew demo_request)
     = Some (Failure ''octo/demo'' ''v1.0.0'' ''v1.1.0'' ''dev@example.com''
         ''Error processing request: bad email task'')"
    using th [where fw = "failing_at 4" and e = "Exn ''TypeError'' ''bad email task''"
        and ?t1.0 = "''github''" and ?t2.0 = "''code''" and ?t3.0 = "''log''"]
    by (simp add: stage_defs)
  have 5: "outcome_of (process_request (failing_at 5) demo_crew demo_request)
     = Some (Failure ''octo/demo'' ''v1.0.0'' ''v1.1.0'' ''dev@example.com''
         ''Error processing request: boom'')"
    using th [where fw = "failing_at 5" and e = "Exn ''RuntimeError'' ''boom''"
        and ?t1.0 = "''github''" and ?t2.0 = "''code''" and ?t3.0 = "''log''"
        and ?t4.0 = "''email''"]
    by (simp add: stage_defs)
  have 0: "outcome_of (process_request (failing_at 0) demo_crew demo_request)
     = Some (Success ''octo/demo'' ''v1.0.0'' ''v1.1.0'' ''dev@example.com''
         ''githubcode<githublog<code<githubemail<log<code<github'')"
    by (simp add: process_request_def process_request_try_def outcome_of_def stage_defs)
  from 1 2 3 4 5 0 show ?thesis by (simp only: simp_thms)
qed

text \<open>
  C1, as the claim has it, fails twice: the message of the failure is not the message of
  the error itself, and an error of the delivery that the email tool catches ends in a
  success whose payload is the text of the error.
\<close>

theorem process_request_claim_counterexample:
  "outcome_of (process_request (failing_at 5) demo_crew demo_request)
     = Some (Failure ''octo/demo'' ''v1.0.0'' ''v1.1.0'' ''dev@example.com''
         ''Error processing request: boom'')
   \<and> ''Error processing request: boom'' \<noteq> ''boom''
   \<and> refusing_send ''dev@example.com'' ''Release log'' ''notes'' ''octo/demo''
     = Inl (Exn ''ConnectionRefusedError'' ''connection refused'')
   \<and> outcome_of (process_request reporting_crewai demo_crew demo_request)
     = Some (Success ''octo/demo'' ''v1.0.0'' ''v1.1.0'' ''dev@example.com''
         ''Error sending email: connection refused'')"
  by (simp add: process_request_def process_request_try_def outcome_of_def failing_at_def
      reporting_crewai_def refusing_send_def EmailSenderTool_run_def demo_crew_def
      demo_request_def)

end
